theory Spec2Isabelle
  imports Main
begin

section \<open>Data model\<close>

text \<open>
  Strings are lists of characters. A snippet's compiled \<open>RegExp\<close> is known by its
  source text (\<open>None\<close> for \<open>null\<close>); an optional string field that the code tests for
  truthiness is an \<open>option\<close>, and the empty string is falsy as well.
\<close>

datatype TriggerKind = SpaceBefore | LineBegin | WordBoundary | InWord

record Snippet =
  filepath :: string
  body :: string
  prefix :: string
  description :: string
  triggerKind :: TriggerKind
  priority :: int
  regex :: "string option"
  originRegex :: "string option"
  context' :: "string option"
  autoTrigger :: bool

record UltiSnipsFile =
  extendFiletypes :: "string list"
  clearsnippets :: "int option"
  directory :: string
  file_filepath :: string
  filetype :: string
  snippets :: "Snippet list"

record Range =
  start_line :: nat
  start_character :: int
  end_line :: nat
  end_character :: int

record Position =
  pos_line :: nat
  pos_character :: nat

record Document =
  doc_filetype :: string
  doc_getline :: "nat \<Rightarrow> string"
  doc_isWord :: "char \<Rightarrow> bool"

record SnippetEdit =
  se_prefix :: string
  se_description :: string
  se_location :: string
  se_priority :: int
  se_range :: Range
  se_newText :: string

section \<open>Library functions of the host language\<close>

text \<open>\<open>Array.prototype.findIndex\<close>: the first index whose element satisfies the
  predicate; \<open>None\<close> stands for the result \<open>-1\<close>.\<close>

fun findIndex :: "('a \<Rightarrow> bool) \<Rightarrow> 'a list \<Rightarrow> nat option" where
  "findIndex P [] = None"
| "findIndex P (x # xs) = (if P x then Some 0 else map_option Suc (findIndex P xs))"

text \<open>
  \<open>Array.prototype.sort\<close> with a comparator, which is stable: each element, in array
  order, is inserted into the sorted part before it, in front of the first element that
  the comparator puts strictly after it (a negative result). Both comparators of the
  program are negative exactly when the first argument belongs to a front group and the
  second does not; for such a comparator the result is the front group followed by the
  rest, each in its old order.
\<close>

fun insert_cmp :: "('a \<Rightarrow> 'a \<Rightarrow> int) \<Rightarrow> 'a \<Rightarrow> 'a list \<Rightarrow> 'a list" where
  "insert_cmp cmp x [] = [x]"
| "insert_cmp cmp x (y # ys) = (if cmp x y < 0 then x # y # ys else y # insert_cmp cmp x ys)"

definition sort_cmp :: "('a \<Rightarrow> 'a \<Rightarrow> int) \<Rightarrow> 'a list \<Rightarrow> 'a list" where
  "sort_cmp cmp xs = foldl (\<lambda>sorted x. insert_cmp cmp x sorted) [] xs"

text \<open>\<open>String.prototype.startsWith\<close>, \<open>endsWith\<close> and \<open>indexOf(..) !== -1\<close>.\<close>

definition startsWith :: "string \<Rightarrow> string \<Rightarrow> bool" where
  "startsWith s p = (take (length p) s = p)"

definition endsWith :: "string \<Rightarrow> string \<Rightarrow> bool" where
  "endsWith s p = (length p \<le> length s \<and> drop (length s - length p) s = p)"

fun str_includes :: "string \<Rightarrow> string \<Rightarrow> bool" where
  "str_includes [] p = (p = [])"
| "str_includes (c # cs) p = (startsWith (c # cs) p \<or> str_includes cs p)"

text \<open>
  The character classes of the regular expressions, on the characters with code below
  256: \<open>\s\<close> (white space and line terminators, also what \<open>trim\<close> removes), \<open>\w\<close>,
  \<open>\d\<close> and the line terminators that \<open>.\<close> does not match.
\<close>

definition isWhitespace :: "char \<Rightarrow> bool" where
  "isWhitespace c = (c \<in> {CHR 0x09, CHR 0x0A, CHR 0x0B, CHR 0x0C, CHR 0x0D, CHR 0x20, CHR 0xA0})"

definition isDigit :: "char \<Rightarrow> bool" where
  "isDigit c = (c \<in> set ''0123456789'')"

definition isWordChar :: "char \<Rightarrow> bool" where
  "isWordChar c = (c \<in> set ''abcdefghijklmnopqrstuvwxyzABCDEFGHIJKLMNOPQRSTUVWXYZ0123456789_'')"

definition isLineTerminator :: "char \<Rightarrow> bool" where
  "isLineTerminator c = (c = CHR 0x0A \<or> c = CHR 0x0D)"

definition trim :: "string \<Rightarrow> string" where
  "trim s = rev (dropWhile isWhitespace (rev (dropWhile isWhitespace s)))"

section \<open>UltiSnippetsProvider.getSnippets\<close>

text \<open>The context of a snippet when \<open>snip.context\<close> is truthy: defined and not the
  empty string.\<close>

definition contextOf :: "Snippet \<Rightarrow> string option" where
  "contextOf s = (case context' s of None \<Rightarrow> None | Some c \<Rightarrow> if c = [] then None else Some c)"

definition hasContext :: "Snippet \<Rightarrow> bool" where
  "hasContext s = (contextOf s \<noteq> None)"

text \<open>The comparator of the sort of the snippet files, for the query filetype.\<close>

definition cmpFiles :: "string \<Rightarrow> UltiSnipsFile \<Rightarrow> UltiSnipsFile \<Rightarrow> int" where
  "cmpFiles ft a b =
     (if filetype a = filetype b then 1
      else if filetype a = ft then - 1
      else 1)"

text \<open>The comparator of the sort that puts snippets with a context first.\<close>

definition cmpContext :: "Snippet \<Rightarrow> Snippet \<Rightarrow> int" where
  "cmpContext a b =
     (if hasContext a \<and> \<not> hasContext b then - 1
      else if hasContext b \<and> \<not> hasContext a then 1
      else 0)"

text \<open>
  \<open>min = min ? Math.max(min, clearsnippets) : clearsnippets\<close>, run when the file's
  \<open>clearsnippets\<close> is a number. The test \<open>min ?\<close> is falsy for \<open>null\<close> and for \<open>0\<close>.
\<close>

fun combineMin :: "int option \<Rightarrow> int option \<Rightarrow> int option" where
  "combineMin m None = m"
| "combineMin None (Some c) = Some c"
| "combineMin (Some m) (Some c) = (if m \<noteq> 0 then Some (max m c) else Some c)"

text \<open>
  The body of the loop over a file's snippets. A snippet with a regex or a context is
  pushed. Another one is pushed when no element of \<open>result\<close> has its prefix and trigger
  kind; otherwise, when its priority is higher than the found item's, the code assigns
  \<open>result[idx] = item\<close>.
\<close>

definition addSnippet :: "Snippet list \<Rightarrow> Snippet \<Rightarrow> Snippet list" where
  "addSnippet result snip =
     (if regex snip \<noteq> None \<or> hasContext snip then result @ [snip]
      else (case findIndex (\<lambda>x. prefix x = prefix snip \<and> triggerKind x = triggerKind snip) result of
              None \<Rightarrow> result @ [snip]
            | Some idx \<Rightarrow>
                (let item = result ! idx
                 in if priority snip > priority item then result[idx := item] else result)))"

definition addFile :: "int option \<times> Snippet list \<Rightarrow> UltiSnipsFile \<Rightarrow> int option \<times> Snippet list" where
  "addFile st file =
     (case st of (m, result) \<Rightarrow>
        (combineMin m (clearsnippets file), foldl addSnippet result (snippets file)))"

text \<open>
  The part of \<open>getSnippets\<close> after the files are selected and sorted: the loop over
  the files, the filter by the combined threshold, and the final sort.
\<close>

definition resolveFiles :: "UltiSnipsFile list \<Rightarrow> Snippet list" where
  "resolveFiles files =
     (case foldl addFile (None, []) files of (m, result) \<Rightarrow>
        sort_cmp cmpContext
          (case m of None \<Rightarrow> result | Some v \<Rightarrow> filter (\<lambda>x. priority x \<ge> v) result))"

text \<open>
  \<open>getFiletypes\<close> is a method of the base class, which is not part of the sources at
  hand; it is a parameter. \<open>snippetFiles\<close> is the provider's list of loaded files.
\<close>

definition selectFiles :: "(string \<Rightarrow> string list) \<Rightarrow> UltiSnipsFile list \<Rightarrow> string \<Rightarrow> UltiSnipsFile list" where
  "selectFiles getFiletypes snippetFiles ft =
     (let filetypes = getFiletypes ft @ [''all'']
      in sort_cmp (cmpFiles ft) (filter (\<lambda>x. filetype x \<in> set filetypes) snippetFiles))"

definition getSnippets :: "(string \<Rightarrow> string list) \<Rightarrow> UltiSnipsFile list \<Rightarrow> string \<Rightarrow> Snippet list" where
  "getSnippets getFiletypes snippetFiles ft = resolveFiles (selectFiles getFiletypes snippetFiles ft)"

text \<open>The threshold that the loop over the selected files ends with.\<close>

definition clearThreshold :: "UltiSnipsFile list \<Rightarrow> int option" where
  "clearThreshold files = fst (foldl addFile (None, []) files)"

section \<open>UltiSnippetsProvider.getTriggerSnippets\<close>

text \<open>
  The callback of the filter over the snippets. \<open>re_match r line\<close> stands for
  \<open>line.match(r)\<close>: \<open>None\<close> when there is no match, else the matched text \<open>ms[0]\<close>.
  \<open>auto\<close> is the optional argument \<open>autoTrigger\<close> of the method. \<open>triggerText\<close> is
  the value of the variable \<open>prefix\<close> after the test of the regex: the prefix of the
  snippet or, for a snippet with a regex, the text that the regex matches.
\<close>

definition triggerText :: "(string \<Rightarrow> string \<Rightarrow> string option) \<Rightarrow> string \<Rightarrow> Snippet \<Rightarrow> string option" where
  "triggerText re_match line s =
     (case regex s of None \<Rightarrow> Some (prefix s) | Some r \<Rightarrow> re_match r line)"

definition triggerFilter ::
  "(string \<Rightarrow> string \<Rightarrow> string option) \<Rightarrow> (char \<Rightarrow> bool) \<Rightarrow> string \<Rightarrow> bool \<Rightarrow> Snippet \<Rightarrow> bool" where
  "triggerFilter re_match isWord line auto s =
     (if auto \<and> \<not> autoTrigger s then False
      else (case triggerText re_match line s of
              None \<Rightarrow> False
            | Some pfx \<Rightarrow>
                if \<not> endsWith line pfx then False
                else if triggerKind s = InWord then True
                else (let pre = take (length line - length pfx) line
                      in if triggerKind s = LineBegin then trim pre = []
                         else if triggerKind s = SpaceBefore then pre = [] \<or> isWhitespace (last pre)
                         else if triggerKind s = WordBoundary then pre = [] \<or> \<not> isWord (last pre)
                         else False)))"

text \<open>
  The loop that builds the edits. \<open>checkContext\<close> is the answer of the external
  evaluator for a context expression and \<open>resolveBody\<close> the text that
  \<open>resolveSnippetBody\<close> returns. \<open>contextPrefixes\<close> is the list the loop keeps: the
  code pushes \<open>s.context\<close> to it and looks \<open>s.prefix\<close> up in it. A snippet with a regex
  that reaches the loop has passed the filter, so its regex matches the line.
\<close>

definition makeEdit ::
  "(string \<Rightarrow> string \<Rightarrow> string option) \<Rightarrow> (Snippet \<Rightarrow> Range \<Rightarrow> string \<Rightarrow> string) \<Rightarrow>
   Position \<Rightarrow> string \<Rightarrow> Snippet \<Rightarrow> SnippetEdit" where
  "makeEdit re_match resolveBody position line s =
     (let len =
            (case regex s of
               None \<Rightarrow> length (prefix s)
             | Some r \<Rightarrow> (case re_match r line of Some m \<Rightarrow> length m | None \<Rightarrow> 0));
          character = int (pos_character position) - int len;
          range = \<lparr>start_line = pos_line position, start_character = character,
                   end_line = pos_line position, end_character = int (pos_character position)\<rparr>
      in \<lparr>se_prefix = prefix s, se_description = description s, se_location = filepath s,
          se_priority = priority s, se_range = range, se_newText = resolveBody s range line\<rparr>)"

fun editLoop ::
  "(string \<Rightarrow> bool) \<Rightarrow> (Snippet \<Rightarrow> SnippetEdit) \<Rightarrow> string list \<Rightarrow> Snippet list \<Rightarrow> SnippetEdit list" where
  "editLoop checkContext mk contextPrefixes [] = []"
| "editLoop checkContext mk contextPrefixes (s # rest) =
     (case contextOf s of
        Some c \<Rightarrow>
          (if \<not> checkContext c then editLoop checkContext mk contextPrefixes rest
           else mk s # editLoop checkContext mk (contextPrefixes @ [c]) rest)
      | None \<Rightarrow>
          (if prefix s \<in> set contextPrefixes then editLoop checkContext mk contextPrefixes rest
           else mk s # editLoop checkContext mk contextPrefixes rest))"

definition getTriggerSnippets ::
  "(string \<Rightarrow> string list) \<Rightarrow> (string \<Rightarrow> string \<Rightarrow> string option) \<Rightarrow> (string \<Rightarrow> bool) \<Rightarrow>
   (Snippet \<Rightarrow> Range \<Rightarrow> string \<Rightarrow> string) \<Rightarrow> UltiSnipsFile list \<Rightarrow>
   Document \<Rightarrow> Position \<Rightarrow> bool \<Rightarrow> SnippetEdit list" where
  "getTriggerSnippets getFiletypes re_match checkContext resolveBody snippetFiles document position auto =
     (let snippets = getSnippets getFiletypes snippetFiles (doc_filetype document);
          line = take (pos_character position) (doc_getline document (pos_line position))
      in if line = [] \<or> last line = CHR '' '' then []
         else editLoop checkContext (makeEdit re_match resolveBody position line) []
                (sort_cmp cmpContext
                   (filter (triggerFilter re_match (doc_isWord document) line auto) snippets)))"


section \<open>convertRegex\<close>

abbreviation backslash :: char where
  "backslash \<equiv> CHR 0x5C"

abbreviation newline :: char where
  "newline \<equiv> CHR 0x0A"

abbreviation quote :: char where
  "quote \<equiv> CHR 0x27"

datatype error = Error string

text \<open>
  The regular expressions of the module, each as a matcher at the start of a text that
  returns the length of the match. \<open>.*?\)\<close> runs to the first \<open>)\<close> unless a line
  terminator comes first; \<open>\w+\<close> before a character that is not a word character takes
  the whole run of word characters.
\<close>

fun lazyToClose :: "string \<Rightarrow> nat option" where
  "lazyToClose [] = None"
| "lazyToClose (c # cs) =
     (if c = CHR '')'' then Some 1
      else if isLineTerminator c then None
      else map_option Suc (lazyToClose cs))"

text \<open>\<open>conditionRe = /\(\?\(\?:\w+\).+\|/\<close>: the text \<open>(?(?:\<close>, word characters up to
  \<open>)\<close>, at least one character other than a line terminator, and \<open>|\<close>.\<close>

definition conditionRe :: "string \<Rightarrow> bool" where
  "conditionRe s =
     (startsWith s ''(?(?:'' \<and>
      (let w = takeWhile isWordChar (drop 5 s);
           rest = dropWhile isWordChar (drop 5 s)
       in w \<noteq> [] \<and> startsWith rest '')'' \<and>
          CHR ''|'' \<in> set (drop 1 (takeWhile (\<lambda>c. \<not> isLineTerminator c) (drop 1 rest)))))"

text \<open>\<open>conditionRe.test(str)\<close>: a match at some position.\<close>

fun conditionTest :: "string \<Rightarrow> bool" where
  "conditionTest [] = False"
| "conditionTest (c # cs) = (conditionRe (c # cs) \<or> conditionTest cs)"

text \<open>\<open>bellRe = /\\a/\<close>, \<open>commentRe = /\(\?#.*?\)/\<close>, \<open>stringStartRe = /\\A/\<close>,
  \<open>namedCaptureRe = /\(\?P<\w+>.*?\)/\<close>, and \<open>namedReferenceRe = /\(\?P=(\w+)\)/\<close> with
  its capture group.\<close>

definition bellRe :: "string \<Rightarrow> nat option" where
  "bellRe s = (if startsWith s [backslash, CHR ''a''] then Some 2 else None)"

definition commentRe :: "string \<Rightarrow> nat option" where
  "commentRe s =
     (if startsWith s ''(?#'' then map_option (\<lambda>n. 3 + n) (lazyToClose (drop 3 s)) else None)"

definition stringStartRe :: "string \<Rightarrow> nat option" where
  "stringStartRe s = (if startsWith s [backslash, CHR ''A''] then Some 2 else None)"

definition namedCaptureRe :: "string \<Rightarrow> nat option" where
  "namedCaptureRe s =
     (let w = takeWhile isWordChar (drop 4 s);
          rest = dropWhile isWordChar (drop 4 s)
      in if startsWith s ''(?P<'' \<and> w \<noteq> [] \<and> startsWith rest ''>''
         then map_option (\<lambda>n. 4 + length w + 1 + n) (lazyToClose (drop 1 rest))
         else None)"

definition namedReferenceRe :: "string \<Rightarrow> (nat \<times> string) option" where
  "namedReferenceRe s =
     (let w = takeWhile isWordChar (drop 4 s);
          rest = dropWhile isWordChar (drop 4 s)
      in if startsWith s ''(?P='' \<and> w \<noteq> [] \<and> startsWith rest '')''
         then Some (4 + length w + 1, w)
         else None)"

text \<open>
  \<open>braceRe = /\^\]/\<close> enters the combined expression as the template literal prints
  it, with its slashes: \<open>/\^\]/\<close>. As a part of the combined source this matches the four
  characters \<open>/^]/\<close>.
\<close>

definition braceRe_printed :: "string \<Rightarrow> nat option" where
  "braceRe_printed s = (if startsWith s ''/^]/'' then Some 4 else None)"

text \<open>
  The combined expression \<open>regex\<close>, tried at the start of \<open>s\<close>: the first alternative
  that matches, in the order \<open>bellRe\<close>, \<open>commentRe\<close>, \<open>stringStartRe\<close>,
  \<open>namedCaptureRe\<close>, \<open>namedReferenceRe\<close>, \<open>braceRe\<close>. The result is the matched text
  and the capture group \<open>p1\<close>.
\<close>

definition matchAt :: "string \<Rightarrow> (string \<times> string option) option" where
  "matchAt s =
     (case bellRe s of Some n \<Rightarrow> Some (take n s, None) | None \<Rightarrow>
      (case commentRe s of Some n \<Rightarrow> Some (take n s, None) | None \<Rightarrow>
       (case stringStartRe s of Some n \<Rightarrow> Some (take n s, None) | None \<Rightarrow>
        (case namedCaptureRe s of Some n \<Rightarrow> Some (take n s, None) | None \<Rightarrow>
         (case namedReferenceRe s of Some (n, name) \<Rightarrow> Some (take n s, Some name) | None \<Rightarrow>
          (case braceRe_printed s of Some n \<Rightarrow> Some (take n s, None) | None \<Rightarrow> None))))))"

text \<open>The replacement callback, on the matched text and \<open>p1\<close>.\<close>

definition replacement :: "string \<Rightarrow> string option \<Rightarrow> string" where
  "replacement match p1 =
     (if match = ''^]'' then [CHR ''^'', backslash, CHR '']'']
      else if match = [backslash, CHR ''a''] then []
      else if startsWith match ''(?#'' then []
      else if match = [backslash, CHR ''A''] then ''^''
      else if startsWith match ''(?P<'' then ''(?'' @ drop 3 match
      else if startsWith match ''(?P='' then
        [backslash] @ ''k<'' @ (case p1 of Some n \<Rightarrow> n | None \<Rightarrow> ''undefined'') @ ''>''
      else [])"

text \<open>\<open>str.replace(regex, callback)\<close> with the global flag: scan from the left; a
  match is replaced and the scan goes on behind it, another character is copied.\<close>

function replaceAll :: "string \<Rightarrow> string" where
  "replaceAll [] = []"
| "replaceAll (c # cs) =
     (case matchAt (c # cs) of
        None \<Rightarrow> c # replaceAll cs
      | Some (match, p1) \<Rightarrow> replacement match p1 @ replaceAll (drop (length match - 1) cs))"
  by pat_completeness auto
termination
  by (relation "measure length") (auto simp: less_Suc_eq_le)

text \<open>The checks at the start of \<open>convertRegex\<close>, in order: the error that is thrown,
  if any.\<close>

definition unsupported :: "string \<Rightarrow> error option" where
  "unsupported str =
     (if str_includes str [backslash, CHR ''z''] then
        Some (Error (''pattern '' @ [backslash] @ ''z not supported''))
      else if str_includes str ''(?s)'' then Some (Error ''pattern (?s) not supported'')
      else if str_includes str ''(?x)'' then Some (Error ''pattern (?x) not supported'')
      else if str_includes str [newline] then Some (Error ''multiple line pattern not supported'')
      else if conditionTest str then Some (Error ''condition pattern not supported'')
      else None)"

definition convertRegex :: "string \<Rightarrow> error + string" where
  "convertRegex str =
     (case unsupported str of
        Some e \<Rightarrow> Inl e
      | None \<Rightarrow> Inr (replaceAll str))"



section \<open>The placeholder scan of resolveSnippetBody\<close>

text \<open>\<open>parseInt(r[1], 10)\<close> on a run of decimal digits.\<close>

definition digitValue :: "char \<Rightarrow> nat" where
  "digitValue c = (case findIndex (\<lambda>d. d = c) ''0123456789'' of Some n \<Rightarrow> n | None \<Rightarrow> 0)"

definition parseInt :: "string \<Rightarrow> nat" where
  "parseInt ds = foldl (\<lambda>n c. 10 * n + digitValue c) 0 ds"

text \<open>
  \<open>/\$\{(\d+)(?::([^}]+))?\}/\<close> tried at the start of \<open>s\<close>: the length of the match,
  the index, and \<open>r[2] || ''\<close>.
\<close>

definition placeholderAt :: "string \<Rightarrow> (nat \<times> nat \<times> string) option" where
  "placeholderAt s =
     (if \<not> startsWith s ''${'' then None
      else (let ds = takeWhile isDigit (drop 2 s);
                rest = dropWhile isDigit (drop 2 s);
                dflt = takeWhile (\<lambda>c. c \<noteq> CHR ''}'') (drop 1 rest);
                rest2 = dropWhile (\<lambda>c. c \<noteq> CHR ''}'') (drop 1 rest)
            in if ds = [] then None
               else if startsWith rest '':'' \<and> dflt \<noteq> [] \<and> rest2 \<noteq> [] then
                 Some (2 + length ds + 1 + length dflt + 1, parseInt ds, dflt)
               else if startsWith rest ''}'' then Some (2 + length ds + 1, parseInt ds, [])
               else None))"

text \<open>The matches of the first loop, \<open>while (r = re.exec(body))\<close>, in order.\<close>

function placeholders :: "string \<Rightarrow> (nat \<times> string) list" where
  "placeholders [] = []"
| "placeholders (c # cs) =
     (case placeholderAt (c # cs) of
        None \<Rightarrow> placeholders cs
      | Some (len, idx, val) \<Rightarrow> (idx, val) # placeholders (drop (len - 1) cs))"
  by pat_completeness auto
termination
  by (relation "measure length") (auto simp: less_Suc_eq_le)

text \<open>The matches of \<open>/\$(\d+)/g\<close>, the second loop: the indices, in order.\<close>

function tabstops :: "string \<Rightarrow> nat list" where
  "tabstops [] = []"
| "tabstops (c # cs) =
     (if c = CHR ''$'' \<and> takeWhile isDigit cs \<noteq> [] then
        parseInt (takeWhile isDigit cs) # tabstops (dropWhile isDigit cs)
      else tabstops cs)"
  by pat_completeness auto
termination
  by (relation "measure length") (auto simp: less_Suc_eq_le length_dropWhile_le)

text \<open>\<open>val.replace(/'/g, "\\'").replace(/\n/g, '\\n')\<close>.\<close>

definition escapeValue :: "string \<Rightarrow> string" where
  "escapeValue val =
     concat (map (\<lambda>c. if c = newline then [backslash, CHR ''n''] else [c])
       (concat (map (\<lambda>c. if c = quote then [backslash, quote] else [c]) val)))"

text \<open>
  The body of the first loop for one match. \<open>values\<close> is the \<open>Map\<close> from indices to
  texts; \<open>execute\<close> stands for the parser's \<open>execute\<close>, which runs code of the editor.
  The stored text is \<open>r'\<close>, the escaped value, and \<open>'\<close>; the test compares the stored
  text with the two characters \<open>''\<close>.
\<close>

definition recordValue ::
  "(string \<Rightarrow> string) \<Rightarrow> (nat \<rightharpoonup> string) \<Rightarrow> nat \<times> string \<Rightarrow> (nat \<rightharpoonup> string)" where
  "recordValue execute values occ =
     (case occ of (idx, val) \<Rightarrow>
        (if values idx = None \<or> (val \<noteq> [] \<and> values idx = Some [quote, quote]) then
           (let val1 =
                  (if startsWith val ''`!'' \<and> length val \<ge> 3 \<and> isWordChar (val ! 2) \<and> endsWith val ''`''
                   then (let code = butlast (tl val)
                         in if startsWith code ''!p'' then [] else execute code)
                   else val)
            in values(idx \<mapsto> ''r'' @ [quote] @ escapeValue val1 @ [quote]))
         else values))"

definition recordTabstop :: "(nat \<rightharpoonup> string) \<Rightarrow> nat \<Rightarrow> (nat \<rightharpoonup> string)" where
  "recordTabstop values idx = (if values idx = None then values(idx \<mapsto> [quote, quote]) else values)"

text \<open>The map \<open>values\<close> after both loops. They run when the body contains the
  text \<open>`!p\<close>; \<open>None\<close> says that they do not run.\<close>

definition placeholderValues :: "(string \<Rightarrow> string) \<Rightarrow> string \<Rightarrow> (nat \<rightharpoonup> string) option" where
  "placeholderValues execute body_text =
     (if str_includes body_text ''`!p'' then
        Some (foldl recordTabstop (foldl (recordValue execute) Map.empty (placeholders body_text))
                (tabstops body_text))
      else None)"

section \<open>ProviderManager.getTriggerSnippets\<close>

text \<open>
  The registry is a \<open>Map\<close> from provider names to providers; it is iterated in
  insertion order and holds every name once, so it is modelled by the list of its
  entries in that order. A provider is known by the edits its \<open>getTriggerSnippets\<close>
  returns for a document and a position. The inner loop pushes an item unless the list
  built so far already holds an edit with the same prefix.
\<close>

definition pushItem :: "SnippetEdit list \<Rightarrow> SnippetEdit \<Rightarrow> SnippetEdit list" where
  "pushItem list item =
     (if findIndex (\<lambda>x. se_prefix x = se_prefix item) list = None then list @ [item] else list)"

definition ProviderManager_getTriggerSnippets ::
  "(string \<times> (Document \<Rightarrow> Position \<Rightarrow> SnippetEdit list)) list \<Rightarrow> Document \<Rightarrow> Position \<Rightarrow>
   SnippetEdit list" where
  "ProviderManager_getTriggerSnippets providers doc position =
     foldl (\<lambda>list (name, provider). foldl pushItem list (provider doc position)) [] providers"

text \<open>All edits that the providers return, in the order of the iteration.\<close>

definition offeredEdits ::
  "(string \<times> (Document \<Rightarrow> Position \<Rightarrow> SnippetEdit list)) list \<Rightarrow> Document \<Rightarrow> Position \<Rightarrow>
   SnippetEdit list" where
  "offeredEdits providers doc position =
     concat (map (\<lambda>(name, provider). provider doc position) providers)"

section \<open>Example inputs\<close>

text \<open>
  A snippet without regex, context and automatic trigger, and a snippet file; the
  answer of \<open>getFiletypes\<close> for a filetype without dots when nothing is configured under
  \<open>extends\<close>; a regex that does not match; an evaluator for which every context holds; a
  body resolver that returns the body as it is; a document whose lines all read the same
  and whose word characters are those of \<open>\w\<close>.
\<close>

definition plainSnippet :: "string \<Rightarrow> string \<Rightarrow> string \<Rightarrow> TriggerKind \<Rightarrow> int \<Rightarrow> Snippet" where
  "plainSnippet path pfx text kind prio =
     \<lparr>filepath = path, body = text, prefix = pfx, description = [], triggerKind = kind,
      priority = prio, regex = None, originRegex = None, context' = None, autoTrigger = False\<rparr>"

definition snippetFile :: "string \<Rightarrow> string \<Rightarrow> int option \<Rightarrow> Snippet list \<Rightarrow> UltiSnipsFile" where
  "snippetFile path ft clear snips =
     \<lparr>extendFiletypes = [], clearsnippets = clear, directory = [], file_filepath = path,
      filetype = ft, snippets = snips\<rparr>"

definition ownFiletype :: "string \<Rightarrow> string list" where
  "ownFiletype ft = [ft]"

definition noRegexMatch :: "string \<Rightarrow> string \<Rightarrow> string option" where
  "noRegexMatch r line = None"

definition guardHolds :: "string \<Rightarrow> bool" where
  "guardHolds c = True"

definition bodyText :: "Snippet \<Rightarrow> Range \<Rightarrow> string \<Rightarrow> string" where
  "bodyText s r line = body s"

definition documentOf :: "string \<Rightarrow> string \<Rightarrow> Document" where
  "documentOf ft text = \<lparr>doc_filetype = ft, doc_getline = (\<lambda>n. text), doc_isWord = isWordChar\<rparr>"

section \<open>Facts about the library functions\<close>

lemma findIndex_None_iff: "findIndex P xs = None \<longleftrightarrow> (\<forall>x\<in>set xs. \<not> P x)"
  by (induction xs) auto

lemma find_append_cases:
  "find P (xs @ ys) = (case find P xs of Some x \<Rightarrow> Some x | None \<Rightarrow> find P ys)"
  by (induction xs) auto

lemma find_distinct_member:
  "distinct (map f xs) \<Longrightarrow> e \<in> set xs \<Longrightarrow> find (\<lambda>x. f x = f e) xs = Some e"
  by (induction xs) (auto simp: image_iff)

lemma set_insert_cmp: "set (insert_cmp cmp x ys) = insert x (set ys)"
  by (induction ys) auto

lemma set_foldl_insert_cmp:
  "set (foldl (\<lambda>sorted x. insert_cmp cmp x sorted) acc xs) = set acc \<union> set xs"
  by (induction xs arbitrary: acc) (auto simp: set_insert_cmp)

lemma set_sort_cmp: "set (sort_cmp cmp xs) = set xs"
  by (simp add: sort_cmp_def set_foldl_insert_cmp)

text \<open>When the comparator is negative exactly for an element of a front group against an
  element outside it, the sort is the stable partition: the front group first, each group
  in its old order.\<close>

lemma insert_cmp_partition:
  assumes cmp: "\<And>x y. (cmp x y < 0) = (P x \<and> \<not> P y)"
    and "\<forall>a \<in> set as. P a" and "\<forall>b \<in> set bs. \<not> P b"
  shows "insert_cmp cmp x (as @ bs) = (if P x then as @ [x] @ bs else as @ bs @ [x])"
  using assms(2)
proof (induction as)
  case Nil
  have "\<not> P x \<Longrightarrow> insert_cmp cmp x bs = bs @ [x]"
    by (induction bs) (simp_all add: cmp)
  moreover have "P x \<Longrightarrow> insert_cmp cmp x bs = x # bs"
    using assms(3) by (cases bs) (simp_all add: cmp)
  ultimately show ?case by simp
next
  case (Cons a as)
  then show ?case by (simp add: cmp)
qed

lemma foldl_insert_cmp_partition:
  assumes cmp: "\<And>x y. (cmp x y < 0) = (P x \<and> \<not> P y)"
  shows "\<forall>a \<in> set as. P a \<Longrightarrow> \<forall>b \<in> set bs. \<not> P b \<Longrightarrow>
    foldl (\<lambda>sorted x. insert_cmp cmp x sorted) (as @ bs) xs
      = (as @ filter P xs) @ (bs @ filter (\<lambda>x. \<not> P x) xs)"
proof (induction xs arbitrary: as bs)
  case Nil
  then show ?case by simp
next
  case (Cons x xs)
  show ?case
  proof (cases "P x")
    case True
    have "insert_cmp cmp x (as @ bs) = (as @ [x]) @ bs"
      using insert_cmp_partition [of cmp P as bs x] cmp Cons.prems True by simp
    moreover have "\<forall>a \<in> set (as @ [x]). P a" using Cons.prems True by simp
    ultimately show ?thesis
      using Cons.IH [of "as @ [x]" bs] Cons.prems True by simp
  next
    case False
    have "insert_cmp cmp x (as @ bs) = as @ (bs @ [x])"
      using insert_cmp_partition [of cmp P as bs x] cmp Cons.prems False by simp
    moreover have "\<forall>b \<in> set (bs @ [x]). \<not> P b" using Cons.prems False by simp
    ultimately show ?thesis
      using Cons.IH [of as "bs @ [x]"] Cons.prems False by simp
  qed
qed

lemma sort_cmp_partition:
  assumes "\<And>x y. (cmp x y < 0) = (P x \<and> \<not> P y)"
  shows "sort_cmp cmp xs = filter P xs @ filter (\<lambda>x. \<not> P x) xs"
  using foldl_insert_cmp_partition [of cmp P "[]" "[]" xs] assms
  by (simp add: sort_cmp_def)

lemma sort_cmpContext:
  "sort_cmp cmpContext xs = filter hasContext xs @ filter (\<lambda>x. \<not> hasContext x) xs"
  by (rule sort_cmp_partition) (auto simp: cmpContext_def)

lemma sort_cmpFiles:
  "sort_cmp (cmpFiles ft) fs
   = filter (\<lambda>f. filetype f = ft) fs @ filter (\<lambda>f. filetype f \<noteq> ft) fs"
  by (rule sort_cmp_partition) (auto simp: cmpFiles_def)

section \<open>getSnippets: which definition of a prefix is kept\<close>

text \<open>The loop never replaces an element of \<open>result\<close>: a snippet is appended or dropped,
  whatever its priority.\<close>

lemma addSnippet_appends_or_drops:
  "addSnippet result snip = result \<or> addSnippet result snip = result @ [snip]"
  by (auto simp: addSnippet_def Let_def split: option.splits)

text \<open>Among the returned definitions without regex and context, no two share prefix and
  trigger kind.\<close>

lemma addSnippet_plain_distinct:
  assumes "distinct (map (\<lambda>s. (prefix s, triggerKind s))
             (filter (\<lambda>s. regex s = None \<and> \<not> hasContext s) result))"
  shows "distinct (map (\<lambda>s. (prefix s, triggerKind s))
             (filter (\<lambda>s. regex s = None \<and> \<not> hasContext s) (addSnippet result snip)))"
proof (cases "regex snip \<noteq> None \<or> hasContext snip")
  case True
  with assms show ?thesis by (auto simp: addSnippet_def)
next
  case False
  show ?thesis
  proof (cases "findIndex (\<lambda>x. prefix x = prefix snip \<and> triggerKind x = triggerKind snip) result")
    case None
    then have "\<forall>x \<in> set result. (prefix x, triggerKind x) \<noteq> (prefix snip, triggerKind snip)"
      by (auto simp: findIndex_None_iff)
    with assms False None show ?thesis
      by (auto simp: addSnippet_def)
  next
    case (Some idx)
    with assms False show ?thesis
      by (simp add: addSnippet_def Let_def)
  qed
qed

lemma foldl_addSnippet_plain_distinct:
  "distinct (map (\<lambda>s. (prefix s, triggerKind s))
      (filter (\<lambda>s. regex s = None \<and> \<not> hasContext s) result)) \<Longrightarrow>
   distinct (map (\<lambda>s. (prefix s, triggerKind s))
      (filter (\<lambda>s. regex s = None \<and> \<not> hasContext s) (foldl addSnippet result snips)))"
proof (induction snips arbitrary: result)
  case Nil
  then show ?case by simp
next
  case (Cons a snips)
  from Cons.IH [OF addSnippet_plain_distinct [OF Cons.prems]] show ?case by simp
qed

lemma foldl_addFile_plain_distinct:
  "distinct (map (\<lambda>s. (prefix s, triggerKind s))
      (filter (\<lambda>s. regex s = None \<and> \<not> hasContext s) (snd st))) \<Longrightarrow>
   distinct (map (\<lambda>s. (prefix s, triggerKind s))
      (filter (\<lambda>s. regex s = None \<and> \<not> hasContext s) (snd (foldl addFile st files))))"
proof (induction files arbitrary: st)
  case Nil
  then show ?case by simp
next
  case (Cons f files)
  have "distinct (map (\<lambda>s. (prefix s, triggerKind s))
      (filter (\<lambda>s. regex s = None \<and> \<not> hasContext s) (snd (addFile st f))))"
    using foldl_addSnippet_plain_distinct [OF Cons.prems, of "snippets f"]
    by (cases st) (simp add: addFile_def)
  from Cons.IH [OF this] show ?case by simp
qed

lemma distinct_map_filter_conj:
  "distinct (map f (filter P xs)) \<Longrightarrow> distinct (map f (filter (\<lambda>x. Q x \<and> P x) xs))"
  by (induction xs) (auto split: if_splits)

lemma resolveFiles_plain_distinct:
  "distinct (map (\<lambda>s. (prefix s, triggerKind s))
      (filter (\<lambda>s. regex s = None \<and> \<not> hasContext s) (resolveFiles files)))"
proof -
  obtain m result where st: "foldl addFile (None, []) files = (m, result)"
    by (cases "foldl addFile (None, []) files")
  let ?plain = "\<lambda>s. regex s = None \<and> \<not> hasContext s"
  let ?key = "\<lambda>s. (prefix s, triggerKind s)"
  have d: "distinct (map ?key (filter ?plain result))"
    using foldl_addFile_plain_distinct [of "(None, [])" files] st by simp
  define kept where "kept = (case m of None \<Rightarrow> result | Some v \<Rightarrow> filter (\<lambda>x. priority x \<ge> v) result)"
  have k: "distinct (map ?key (filter ?plain kept))"
    using d by (auto simp: kept_def distinct_map_filter_conj split: option.splits)
  have "filter ?plain (sort_cmp cmpContext kept) = filter ?plain kept"
    by (simp add: sort_cmpContext) (rule filter_cong, auto)
  with k show ?thesis
    by (simp add: resolveFiles_def st kept_def)
qed

lemma getSnippets_plain_distinct:
  "distinct (map (\<lambda>s. (prefix s, triggerKind s))
      (filter (\<lambda>s. regex s = None \<and> \<not> hasContext s) (getSnippets getFiletypes snippetFiles ft)))"
  by (simp add: getSnippets_def resolveFiles_plain_distinct)

text \<open>Every returned definition has a priority at or above the threshold the loop ends
  with.\<close>

lemma resolveFiles_threshold:
  "clearThreshold files = Some v \<Longrightarrow> s \<in> set (resolveFiles files) \<Longrightarrow> priority s \<ge> v"
  by (cases "foldl addFile (None, []) files")
     (auto simp: clearThreshold_def resolveFiles_def set_sort_cmp)

text \<open>
  Claim C1 (the code departs from it). File A of filetype \<open>python\<close> defines the prefix
  \<open>imp\<close> with priority 0, file B defines it with priority 10, with the same trigger
  kind. The claim asks for B's definition alone. \<open>getSnippets\<close> returns A's definition
  alone, when B is a second \<open>python\<close> file loaded after A and when B is a file of the
  scope \<open>all\<close>: the branch for a higher priority stores the old item again.
\<close>

theorem getSnippets_returns_first_definition_not_highest_priority:
  "getSnippets ownFiletype
     [snippetFile ''A.snippets'' ''python'' None
        [plainSnippet ''A.snippets'' ''imp'' ''import ${1}'' WordBoundary 0],
      snippetFile ''B.snippets'' ''python'' None
        [plainSnippet ''B.snippets'' ''imp'' ''from ${1} import ${2}'' WordBoundary 10]]
     ''python''
   = [plainSnippet ''A.snippets'' ''imp'' ''import ${1}'' WordBoundary 0] \<and>
   getSnippets ownFiletype
     [snippetFile ''B.snippets'' ''all'' None
        [plainSnippet ''B.snippets'' ''imp'' ''from ${1} import ${2}'' WordBoundary 10],
      snippetFile ''A.snippets'' ''python'' None
        [plainSnippet ''A.snippets'' ''imp'' ''import ${1}'' WordBoundary 0]]
     ''python''
   = [plainSnippet ''A.snippets'' ''imp'' ''import ${1}'' WordBoundary 0]"
  by code_simp

lemma clearThreshold_foldl:
  "fst (foldl addFile st files) = foldl combineMin (fst st) (map clearsnippets files)"
  by (induction files arbitrary: st) (auto simp: addFile_def split: prod.splits)

lemma foldl_combineMin_nonneg:
  "0 \<le> m \<Longrightarrow> \<forall>c \<in> Some -` set cs. 0 \<le> c \<Longrightarrow>
   foldl combineMin (Some m) cs = Some (Max (insert m (Some -` set cs)))"
proof (induction cs arbitrary: m)
  case Nil
  then show ?case by simp
next
  case (Cons x cs)
  show ?case
  proof (cases x)
    case None
    then have "Some -` set (x # cs) = Some -` set cs" by auto
    with Cons None show ?thesis by simp
  next
    case (Some c)
    with Cons.prems have c: "0 \<le> c" by simp
    have fin: "finite (Some -` set cs)"
      by (simp add: finite_vimageI)
    have step: "combineMin (Some m) (Some c) = Some (max m c)"
      using Cons.prems(1) c by (auto simp: max_def)
    have v: "Some -` set (x # cs) = insert c (Some -` set cs)"
      using Some by auto
    have "foldl combineMin (Some (max m c)) cs = Some (Max (insert (max m c) (Some -` set cs)))"
      using Cons.IH [of "max m c"] Cons.prems c v by (simp add: max_def)
    moreover have "Max (insert (max m c) (Some -` set cs)) = Max (insert m (insert c (Some -` set cs)))"
      using fin by (cases "Some -` set cs = {}") (auto simp: max.assoc max.commute max.left_commute)
    ultimately show ?thesis using Some step v by simp
  qed
qed

lemma foldl_combineMin_None_nonneg:
  "\<forall>c \<in> Some -` set cs. 0 \<le> c \<Longrightarrow>
   foldl combineMin None cs = (if Some -` set cs = {} then None else Some (Max (Some -` set cs)))"
proof (induction cs)
  case Nil
  then show ?case by simp
next
  case (Cons x cs)
  show ?case
  proof (cases x)
    case None
    then have "Some -` set (x # cs) = Some -` set cs" by auto
    with Cons None show ?thesis by simp
  next
    case (Some c)
    then have v: "Some -` set (x # cs) = insert c (Some -` set cs)" by auto
    with Cons.prems have "0 \<le> c" "\<forall>c \<in> Some -` set cs. 0 \<le> c" by auto
    with foldl_combineMin_nonneg [of c cs] Some v show ?thesis by simp
  qed
qed

text \<open>When no file sets a negative threshold, the loop ends with the maximum of the
  thresholds that the files set.\<close>

lemma clearThreshold_max_of_nonnegative:
  assumes "\<forall>f \<in> set files. \<forall>c. clearsnippets f = Some c \<longrightarrow> 0 \<le> c"
  shows "clearThreshold files =
     (if \<forall>f \<in> set files. clearsnippets f = None then None
      else Some (Max {c. \<exists>f \<in> set files. clearsnippets f = Some c}))"
proof -
  have eq: "Some -` set (map clearsnippets files) = {c. \<exists>f \<in> set files. clearsnippets f = Some c}"
    by (auto simp: image_iff) metis+
  have "\<forall>c \<in> Some -` set (map clearsnippets files). 0 \<le> c"
    using assms unfolding eq by auto
  from foldl_combineMin_None_nonneg [OF this]
  have "foldl combineMin None (map clearsnippets files) =
      (if {c. \<exists>f \<in> set files. clearsnippets f = Some c} = {} then None
       else Some (Max {c. \<exists>f \<in> set files. clearsnippets f = Some c}))"
    unfolding eq .
  then have "clearThreshold files =
      (if {c. \<exists>f \<in> set files. clearsnippets f = Some c} = {} then None
       else Some (Max {c. \<exists>f \<in> set files. clearsnippets f = Some c}))"
    by (simp only: clearThreshold_def clearThreshold_foldl fst_conv)
  moreover have "({c. \<exists>f \<in> set files. clearsnippets f = Some c} = {})
      = (\<forall>f \<in> set files. clearsnippets f = None)"
    by (auto simp: not_Some_eq [symmetric] simp del: not_Some_eq not_None_eq)
  ultimately show ?thesis by simp
qed

text \<open>
  Claim C2 (the code departs from it). A \<open>python\<close> file sets the threshold 0 and a file
  of the scope \<open>all\<close> sets the threshold -50 and defines the prefix \<open>x\<close> with priority
  -10. The maximum of the thresholds is 0, so the claim asks for the definition to be
  removed. The loop ends with the threshold -50, since the test \<open>min ?\<close> takes the stored 0
  for no threshold, and \<open>getSnippets\<close> returns the definition.
\<close>

theorem getSnippets_threshold_zero_then_negative:
  "clearThreshold (selectFiles ownFiletype
     [snippetFile ''python.snippets'' ''python'' (Some 0) [],
      snippetFile ''all.snippets'' ''all'' (Some (- 50))
        [plainSnippet ''all.snippets'' ''x'' ''text'' WordBoundary (- 10)]]
     ''python'') = Some (- 50) \<and>
   getSnippets ownFiletype
     [snippetFile ''python.snippets'' ''python'' (Some 0) [],
      snippetFile ''all.snippets'' ''all'' (Some (- 50))
        [plainSnippet ''all.snippets'' ''x'' ''text'' WordBoundary (- 10)]]
     ''python''
   = [plainSnippet ''all.snippets'' ''x'' ''text'' WordBoundary (- 10)]"
  by code_simp

section \<open>getTriggerSnippets: context, automatic trigger and boundaries\<close>

text \<open>A guarded candidate whose context holds, followed by a plain candidate: the plain
  one is suppressed only when its prefix is the text of the context expression.\<close>

lemma editLoop_guarded_then_plain:
  assumes "contextOf g = Some c" and "checkContext c" and "contextOf p = None"
  shows "editLoop checkContext mk [] [g, p] = (if prefix p = c then [mk g] else [mk g, mk p])"
  using assms by simp

text \<open>
  Claim C3 (the code departs from it). One file defines the prefix \<open>foo\<close> twice, first
  without a context and then with the context \<open>True\<close>, which the evaluator accepts. On the
  line \<open>foo\<close> the claim asks for the guarded definition alone. \<open>getTriggerSnippets\<close>
  returns an edit for each of the two: the loop records the context expression and then
  looks the prefix up among the recorded texts.
\<close>

theorem getTriggerSnippets_plain_candidate_not_suppressed:
  "getTriggerSnippets ownFiletype noRegexMatch guardHolds bodyText
     [snippetFile ''A.snippets'' ''python'' None
        [plainSnippet ''A.snippets'' ''foo'' ''plain'' WordBoundary 0,
         (plainSnippet ''A.snippets'' ''foo'' ''guarded'' WordBoundary 0)\<lparr>context' := Some ''True''\<rparr>]]
     (documentOf ''python'' ''foo'') \<lparr>pos_line = 0, pos_character = 3\<rparr> False
   = [\<lparr>se_prefix = ''foo'', se_description = [], se_location = ''A.snippets'', se_priority = 0,
        se_range = \<lparr>start_line = 0, start_character = 0, end_line = 0, end_character = 3\<rparr>,
        se_newText = ''guarded''\<rparr>,
      \<lparr>se_prefix = ''foo'', se_description = [], se_location = ''A.snippets'', se_priority = 0,
        se_range = \<lparr>start_line = 0, start_character = 0, end_line = 0, end_character = 3\<rparr>,
        se_newText = ''plain''\<rparr>]"
  by code_simp

lemma editLoop_subset: "set (editLoop chk mk cps ss) \<subseteq> mk ` set ss"
  by (induction ss arbitrary: cps) (auto split: option.splits)

lemma triggerFilter_requested:
  "\<not> autoTrigger s \<Longrightarrow> \<not> triggerFilter re_match isWord line True s"
  by (simp add: triggerFilter_def)

lemma triggerFilter_not_requested:
  "triggerFilter re_match isWord line False (s\<lparr>autoTrigger := b\<rparr>)
   = triggerFilter re_match isWord line False s"
  by (simp add: triggerFilter_def triggerText_def cong: option.case_cong)

text \<open>
  Claim C4, as stated, fails: with automatic matching not requested, a candidate whose
  \<open>autoTrigger\<close> flag is set passes the filter, and \<open>getTriggerSnippets\<close> returns its
  edit.
\<close>

theorem autoTrigger_candidate_matches_when_not_requested:
  "triggerFilter noRegexMatch isWordChar ''foo'' False
     ((plainSnippet ''A.snippets'' ''foo'' ''text'' WordBoundary 0)\<lparr>autoTrigger := True\<rparr>) \<and>
   getTriggerSnippets ownFiletype noRegexMatch guardHolds bodyText
     [snippetFile ''A.snippets'' ''python'' None
        [(plainSnippet ''A.snippets'' ''foo'' ''text'' WordBoundary 0)\<lparr>autoTrigger := True\<rparr>]]
     (documentOf ''python'' ''foo'') \<lparr>pos_line = 0, pos_character = 3\<rparr> False
   = [\<lparr>se_prefix = ''foo'', se_description = [], se_location = ''A.snippets'', se_priority = 0,
        se_range = \<lparr>start_line = 0, start_character = 0, end_line = 0, end_character = 3\<rparr>,
        se_newText = ''text''\<rparr>]"
  by code_simp

text \<open>
  Claim C4, amended. The gate works the other way round. When the caller requests
  automatic matching, a candidate whose \<open>autoTrigger\<close> flag is not set does not pass the
  filter, and every edit that \<open>getTriggerSnippets\<close> returns is built from a snippet of
  the scope whose flag is set. When the caller does not request it, the flag plays no
  role: a candidate passes the filter exactly when it does with the flag changed.
\<close>

theorem autoTrigger_gate:
  "(\<not> autoTrigger s \<longrightarrow> \<not> triggerFilter re_match isWord line True s) \<and>
   triggerFilter re_match isWord line False (s\<lparr>autoTrigger := b\<rparr>)
     = triggerFilter re_match isWord line False s \<and>
   (\<forall>e \<in> set (getTriggerSnippets getFiletypes re_match checkContext resolveBody snippetFiles
                  document position True).
      \<exists>c \<in> set (getSnippets getFiletypes snippetFiles (doc_filetype document)).
        autoTrigger c \<and>
        e = makeEdit re_match resolveBody position
              (take (pos_character position) (doc_getline document (pos_line position))) c)"
proof (intro conjI ballI)
  show "\<not> autoTrigger s \<longrightarrow> \<not> triggerFilter re_match isWord line True s"
    by (simp add: triggerFilter_requested)
  show "triggerFilter re_match isWord line False (s\<lparr>autoTrigger := b\<rparr>)
     = triggerFilter re_match isWord line False s"
    by (rule triggerFilter_not_requested)
next
  fix e
  let ?line = "take (pos_character position) (doc_getline document (pos_line position))"
  let ?all = "getSnippets getFiletypes snippetFiles (doc_filetype document)"
  let ?matched = "filter (triggerFilter re_match (doc_isWord document) ?line True) ?all"
  assume "e \<in> set (getTriggerSnippets getFiletypes re_match checkContext resolveBody snippetFiles
                  document position True)"
  then have "e \<in> set (editLoop checkContext (makeEdit re_match resolveBody position ?line) []
                (sort_cmp cmpContext ?matched))"
    by (auto simp: getTriggerSnippets_def Let_def split: if_splits)
  then have "e \<in> makeEdit re_match resolveBody position ?line ` set (sort_cmp cmpContext ?matched)"
    using editLoop_subset by blast
  then obtain c where c: "c \<in> set ?matched" "e = makeEdit re_match resolveBody position ?line c"
    by (auto simp: set_sort_cmp)
  from c(1) have "c \<in> set ?all" "triggerFilter re_match (doc_isWord document) ?line True c"
    by auto
  with triggerFilter_requested [of c re_match "doc_isWord document" ?line]
  have "autoTrigger c" by blast
  with \<open>c \<in> set ?all\<close> c(2)
  show "\<exists>c \<in> set ?all. autoTrigger c \<and> e = makeEdit re_match resolveBody position ?line c"
    by blast
qed

text \<open>
  The gate at work. One file defines \<open>foo\<close> without the flag and \<open>oo\<close> (in a word) with
  it. On the line \<open>foo\<close>, a request for automatic matching returns the edit of \<open>oo\<close>
  alone; the candidate \<open>foo\<close> does not pass the filter then, and passes it without the
  request whatever its flag is.
\<close>

theorem autoTrigger_gate_witness:
  "\<not> triggerFilter noRegexMatch isWordChar ''foo'' True
       (plainSnippet ''A.snippets'' ''foo'' ''text'' WordBoundary 0) \<and>
   triggerFilter noRegexMatch isWordChar ''foo'' False
       ((plainSnippet ''A.snippets'' ''foo'' ''text'' WordBoundary 0)\<lparr>autoTrigger := True\<rparr>) \<and>
   getTriggerSnippets ownFiletype noRegexMatch guardHolds bodyText
     [snippetFile ''A.snippets'' ''python'' None
        [plainSnippet ''A.snippets'' ''foo'' ''text'' WordBoundary 0,
         (plainSnippet ''A.snippets'' ''oo'' ''auto'' InWord 0)\<lparr>autoTrigger := True\<rparr>]]
     (documentOf ''python'' ''foo'') \<lparr>pos_line = 0, pos_character = 3\<rparr> True
   = [\<lparr>se_prefix = ''oo'', se_description = [], se_location = ''A.snippets'', se_priority = 0,
        se_range = \<lparr>start_line = 0, start_character = 1, end_line = 0, end_character = 3\<rparr>,
        se_newText = ''auto''\<rparr>]"
proof -
  let ?s = "plainSnippet ''A.snippets'' ''foo'' ''text'' WordBoundary 0"
  let ?files = "[snippetFile ''A.snippets'' ''python'' None
        [plainSnippet ''A.snippets'' ''foo'' ''text'' WordBoundary 0,
         (plainSnippet ''A.snippets'' ''oo'' ''auto'' InWord 0)\<lparr>autoTrigger := True\<rparr>]]"
  note gate = autoTrigger_gate [of ?s noRegexMatch isWordChar "''foo''" True
      ownFiletype guardHolds bodyText ?files "documentOf ''python'' ''foo''"
      "\<lparr>pos_line = 0, pos_character = 3\<rparr>"]
  have flag: "\<not> autoTrigger ?s" by (simp add: plainSnippet_def)
  from gate flag have 1: "\<not> triggerFilter noRegexMatch isWordChar ''foo'' True ?s" by blast
  have "triggerFilter noRegexMatch isWordChar ''foo'' False ?s" by code_simp
  with gate have 2: "triggerFilter noRegexMatch isWordChar ''foo'' False (?s\<lparr>autoTrigger := True\<rparr>)"
    by simp
  have 3: "getTriggerSnippets ownFiletype noRegexMatch guardHolds bodyText ?files
     (documentOf ''python'' ''foo'') \<lparr>pos_line = 0, pos_character = 3\<rparr> True
   = [\<lparr>se_prefix = ''oo'', se_description = [], se_location = ''A.snippets'', se_priority = 0,
        se_range = \<lparr>start_line = 0, start_character = 1, end_line = 0, end_character = 3\<rparr>,
        se_newText = ''auto''\<rparr>]"
    by code_simp
  from 1 2 3 show ?thesis by blast
qed







section \<open>convertRegex: rejected patterns, substitutions, a second pass\<close>

lemma convertRegex_fails_iff:
  "(\<exists>e. convertRegex str = Inl e) \<longleftrightarrow>
     str_includes str [backslash, CHR ''z''] \<or> str_includes str ''(?s)'' \<or>
     str_includes str ''(?x)'' \<or> str_includes str [newline] \<or> conditionTest str"
  by (auto simp: convertRegex_def unsupported_def split: option.splits if_splits)

text \<open>
  Claim C6 (the code departs from it). The patterns \<open>(?(1)a|b)\<close> and
  \<open>(?(name)yes|no)\<close> hold a conditional construct, so the claim asks for a failure.
  \<open>convertRegex\<close> returns both unchanged: its test for a conditional looks for the text
  \<open>(?(?:\<close>.
\<close>

theorem convertRegex_accepts_conditional:
  "convertRegex ''(?(1)a|b)'' = Inr ''(?(1)a|b)'' \<and>
   convertRegex ''(?(name)yes|no)'' = Inr ''(?(name)yes|no)''"
  by code_simp

text \<open>
  Claim C7 (the code departs from it). In the class \<open>[^]]\<close> the bracket after \<open>^\<close>
  is literal, so the claim asks for \<open>[^\]]\<close>. \<open>convertRegex\<close> returns the pattern
  unchanged: the last alternative of the combined expression is the printed form of
  \<open>braceRe\<close>, with its slashes, and matches the text \<open>/^]/\<close> only, which is then deleted.
\<close>

theorem convertRegex_leaves_bracket_unescaped:
  "convertRegex ''[^]]'' = Inr ''[^]]'' \<and> convertRegex ''a/^]/b'' = Inr ''ab''"
  by code_simp

text \<open>The text of a named group, up to its first \<open>)\<close>, is copied as it is: a named
  group inside it keeps its form.\<close>

lemma convertRegex_copies_group_text:
  "convertRegex ''(?P<a>(?P<b>x)y)'' = Inr ''(?<a>(?P<b>x)y)''"
  by code_simp













section \<open>The placeholder scan keeps the first recorded value\<close>

lemma recordValue_keeps:
  "values idx = Some v \<Longrightarrow> v \<noteq> [quote, quote] \<Longrightarrow> recordValue execute values (idx, val) = values"
  by (simp add: recordValue_def)

lemma recordValue_not_two_quotes:
  "\<forall>i v. values i = Some v \<longrightarrow> v \<noteq> [quote, quote] \<Longrightarrow>
   \<forall>i v. recordValue execute values occ i = Some v \<longrightarrow> v \<noteq> [quote, quote]"
  by (cases occ) (auto simp: recordValue_def Let_def)

text \<open>In the first loop, an index that has a value keeps it: no later occurrence
  replaces it, whatever its default is.\<close>

lemma first_loop_keeps_recorded_value:
  "\<forall>i v. m i = Some v \<longrightarrow> v \<noteq> [quote, quote] \<Longrightarrow> m idx = Some v \<Longrightarrow>
   foldl (recordValue execute) m occs idx = Some v"
proof (induction occs arbitrary: m)
  case Nil
  then show ?case by simp
next
  case (Cons occ occs)
  obtain i val where occ: "occ = (i, val)" by (cases occ)
  have inv: "\<forall>i v. recordValue execute m occ i = Some v \<longrightarrow> v \<noteq> [quote, quote]"
    using Cons.prems(1) by (rule recordValue_not_two_quotes)
  have "recordValue execute m occ idx = Some v"
  proof (cases "i = idx")
    case True
    with Cons.prems occ show ?thesis by (simp add: recordValue_keeps)
  next
    case False
    with Cons.prems(2) occ show ?thesis by (simp add: recordValue_def Let_def)
  qed
  with Cons.IH [OF inv] show ?case by simp
qed

text \<open>
  Claim C9 (the code departs from it). In the body \<open>`!p snip.rv = t[1]` ${1} ${1:foo}\<close>
  the first occurrence of the index 1 has no default and the second has the default
  \<open>foo\<close>, so the claim asks for the value of \<open>foo\<close>, which is \<open>r'foo'\<close>. The scan records
  \<open>r''\<close>, the value of the empty default: the test for an earlier empty default
  compares with \<open>''\<close>, and the loop stores \<open>r''\<close> for one.
\<close>

theorem placeholderValues_keeps_empty_first_default:
  "placeholders ''`!p snip.rv = t[1]` ${1} ${1:foo}'' = [(1, []), (1, ''foo'')] \<and>
   (case placeholderValues execute ''`!p snip.rv = t[1]` ${1} ${1:foo}'' of
      None \<Rightarrow> None
    | Some recorded \<Rightarrow> recorded 1) = Some (''r'' @ [quote, quote])"
  by code_simp

section \<open>ProviderManager.getTriggerSnippets keeps the first edit of every prefix\<close>

lemma providers_loop_flat:
  "foldl (\<lambda>list (name, provider). foldl pushItem list (provider doc position)) acc providers
   = foldl pushItem acc (offeredEdits providers doc position)"
  by (induction providers arbitrary: acc) (auto simp: offeredEdits_def)

lemma pushItem_distinct:
  "distinct (map se_prefix acc) \<Longrightarrow> distinct (map se_prefix (pushItem acc a))"
  by (auto simp: pushItem_def findIndex_None_iff)

lemma foldl_pushItem_distinct:
  "distinct (map se_prefix acc) \<Longrightarrow> distinct (map se_prefix (foldl pushItem acc items))"
proof (induction items arbitrary: acc)
  case Nil
  then show ?case by simp
next
  case (Cons a items)
  from Cons.IH [OF pushItem_distinct [OF Cons.prems]] show ?case by simp
qed

lemma pushItem_prefixes:
  "se_prefix ` set (pushItem acc a) = insert (se_prefix a) (se_prefix ` set acc)"
  by (auto simp: pushItem_def findIndex_None_iff intro: rev_image_eqI)

lemma foldl_pushItem_prefixes:
  "se_prefix ` set (foldl pushItem acc items) = se_prefix ` set acc \<union> se_prefix ` set items"
  by (induction items arbitrary: acc) (simp_all add: pushItem_prefixes)

lemma pushItem_find:
  "find (\<lambda>x. se_prefix x = p) (pushItem acc a @ items)
   = find (\<lambda>x. se_prefix x = p) (acc @ a # items)"
proof (cases "findIndex (\<lambda>x. se_prefix x = se_prefix a) acc = None")
  case True
  then show ?thesis by (simp add: pushItem_def)
next
  case False
  then obtain y where y: "y \<in> set acc" "se_prefix y = se_prefix a"
    by (auto simp: findIndex_None_iff)
  show ?thesis
  proof (cases "se_prefix a = p")
    case True
    with y have "find (\<lambda>x. se_prefix x = p) acc \<noteq> None"
      by (auto simp: find_None_iff)
    with False show ?thesis
      by (auto simp: pushItem_def find_append_cases split: option.splits)
  next
    case differs: False
    with False show ?thesis
      by (auto simp: pushItem_def find_append_cases split: option.splits)
  qed
qed

lemma foldl_pushItem_first:
  "e \<in> set (foldl pushItem acc items) \<Longrightarrow> distinct (map se_prefix acc) \<Longrightarrow>
   find (\<lambda>x. se_prefix x = se_prefix e) (acc @ items) = Some e"
proof (induction items arbitrary: acc)
  case Nil
  then show ?case by (simp add: find_distinct_member)
next
  case (Cons a items)
  have "find (\<lambda>x. se_prefix x = se_prefix e) (pushItem acc a @ items) = Some e"
    using Cons.IH [of "pushItem acc a"] Cons.prems by (simp add: pushItem_distinct)
  then show ?case by (simp add: pushItem_find)
qed

text \<open>
  Claim C10. The list that \<open>ProviderManager.getTriggerSnippets\<close> returns holds at most
  one edit per prefix, it holds an edit for every prefix that some provider returns, and
  the edit it holds for a prefix is the first one with that prefix in the order in which
  the providers are iterated (the order of registration), so the edit of the provider that
  comes first is the one kept.
\<close>

theorem ProviderManager_getTriggerSnippets_first_per_prefix:
  "distinct (map se_prefix (ProviderManager_getTriggerSnippets providers doc position)) \<and>
   se_prefix ` set (ProviderManager_getTriggerSnippets providers doc position)
     = se_prefix ` set (offeredEdits providers doc position) \<and>
   (\<forall>e \<in> set (ProviderManager_getTriggerSnippets providers doc position).
      find (\<lambda>x. se_prefix x = se_prefix e) (offeredEdits providers doc position) = Some e)"
proof -
  have flat: "ProviderManager_getTriggerSnippets providers doc position
      = foldl pushItem [] (offeredEdits providers doc position)"
    by (simp add: ProviderManager_getTriggerSnippets_def providers_loop_flat)
  have d: "distinct (map se_prefix (foldl pushItem [] (offeredEdits providers doc position)))"
    by (rule foldl_pushItem_distinct) simp
  have p: "se_prefix ` set (foldl pushItem [] (offeredEdits providers doc position))
      = se_prefix ` set (offeredEdits providers doc position)"
    by (simp add: foldl_pushItem_prefixes)
  have f: "\<forall>e \<in> set (foldl pushItem [] (offeredEdits providers doc position)).
      find (\<lambda>x. se_prefix x = se_prefix e) (offeredEdits providers doc position) = Some e"
    using foldl_pushItem_first [of _ "[]" "offeredEdits providers doc position"] by simp
  from d p f show ?thesis unfolding flat by blast
qed

text \<open>
  Two providers, registered as \<open>ultisnips\<close> and then \<open>snipmate\<close>, each return an edit
  for the prefix \<open>foo\<close>, and the second one also an edit for \<open>bar\<close>: the edit of the
  first provider is kept for \<open>foo\<close>.
\<close>

theorem ProviderManager_getTriggerSnippets_first_per_prefix_witness:
  "ProviderManager_getTriggerSnippets
     [(''ultisnips'', \<lambda>d p. [\<lparr>se_prefix = ''foo'', se_description = ''first'', se_location = ''a.snippets'',
          se_priority = 0,
          se_range = \<lparr>start_line = 0, start_character = 0, end_line = 0, end_character = 3\<rparr>,
          se_newText = ''one''\<rparr>]),
      (''snipmate'', \<lambda>d p. [\<lparr>se_prefix = ''foo'', se_description = ''second'', se_location = ''b.snippets'',
          se_priority = 0,
          se_range = \<lparr>start_line = 0, start_character = 0, end_line = 0, end_character = 3\<rparr>,
          se_newText = ''two''\<rparr>,
        \<lparr>se_prefix = ''bar'', se_description = ''third'', se_location = ''b.snippets'',
          se_priority = 0,
          se_range = \<lparr>start_line = 0, start_character = 0, end_line = 0, end_character = 3\<rparr>,
          se_newText = ''three''\<rparr>])]
     (documentOf ''python'' ''foo'') \<lparr>pos_line = 0, pos_character = 3\<rparr>
   = [\<lparr>se_prefix = ''foo'', se_description = ''first'', se_location = ''a.snippets'',
          se_priority = 0,
          se_range = \<lparr>start_line = 0, start_character = 0, end_line = 0, end_character = 3\<rparr>,
          se_newText = ''one''\<rparr>,
      \<lparr>se_prefix = ''bar'', se_description = ''third'', se_location = ''b.snippets'',
          se_priority = 0,
          se_range = \<lparr>start_line = 0, start_character = 0, end_line = 0, end_character = 3\<rparr>,
          se_newText = ''three''\<rparr>] \<and>
   distinct (map se_prefix (ProviderManager_getTriggerSnippets
     [(''ultisnips'', \<lambda>d p. [\<lparr>se_prefix = ''foo'', se_description = ''first'', se_location = ''a.snippets'',
          se_priority = 0,
          se_range = \<lparr>start_line = 0, start_character = 0, end_line = 0, end_character = 3\<rparr>,
          se_newText = ''one''\<rparr>]),
      (''snipmate'', \<lambda>d p. [\<lparr>se_prefix = ''foo'', se_description = ''second'', se_location = ''b.snippets'',
          se_priority = 0,
          se_range = \<lparr>start_line = 0, start_character = 0, end_line = 0, end_character = 3\<rparr>,
          se_newText = ''two''\<rparr>,
        \<lparr>se_prefix = ''bar'', se_description = ''third'', se_location = ''b.snippets'',
          se_priority = 0,
          se_range = \<lparr>start_line = 0, start_character = 0, end_line = 0, end_character = 3\<rparr>,
          se_newText = ''three''\<rparr>])]
     (documentOf ''python'' ''foo'') \<lparr>pos_line = 0, pos_character = 3\<rparr>))"
  using ProviderManager_getTriggerSnippets_first_per_prefix
    [of "[(''ultisnips'', \<lambda>d p. [\<lparr>se_prefix = ''foo'', se_description = ''first'', se_location = ''a.snippets'',
          se_priority = 0,
          se_range = \<lparr>start_line = 0, start_character = 0, end_line = 0, end_character = 3\<rparr>,
          se_newText = ''one''\<rparr>]),
      (''snipmate'', \<lambda>d p. [\<lparr>se_prefix = ''foo'', se_description = ''second'', se_location = ''b.snippets'',
          se_priority = 0,
          se_range = \<lparr>start_line = 0, start_character = 0, end_line = 0, end_character = 3\<rparr>,
          se_newText = ''two''\<rparr>,
        \<lparr>se_prefix = ''bar'', se_description = ''third'', se_location = ''b.snippets'',
          se_priority = 0,
          se_range = \<lparr>start_line = 0, start_character = 0, end_line = 0, end_character = 3\<rparr>,
          se_newText = ''three''\<rparr>])]" "documentOf ''python'' ''foo''" "\<lparr>pos_line = 0, pos_character = 3\<rparr>"]
  by (simp add: ProviderManager_getTriggerSnippets_def pushItem_def)

end
